theory Spec2Isabelle
  imports Complex_Main
begin

section \<open>Synthetic survey data generator (generate\_data.py)\<close>

text \<open>
  The script is one linear module: configuration constants, a loop over the respondents
  that draws latent factors and item noise from \<^verbatim>\<open>np.random.normal\<close>, and a CSV write
  followed by one \<^verbatim>\<open>print\<close>. Floating-point values are modelled as exact reals.
  The process-wide random source is made explicit: a state of any type \<open>'s\<close> and the
  sampler \<open>normal loc scale\<close>, which returns the draw and the next state.
\<close>

subsection \<open>Configuration\<close>

type_synonym 's sampler = "real \<Rightarrow> real \<Rightarrow> 's \<Rightarrow> real \<times> 's"

datatype error = KeyError string | OSError

definition NUM_RESPONDENTS :: nat where
  "NUM_RESPONDENTS = 150"

definition SCALE_MIN :: int where
  "SCALE_MIN = 1"

definition SCALE_MAX :: int where
  "SCALE_MAX = 5"

text \<open>A Python dict iterates in insertion order, so the dict literal is an association list.\<close>

definition constructs :: "(string \<times> string list) list" where
  "constructs =
    [(''CSVC'', [''CSVC1'', ''CSVC2'', ''CSVC3'', ''CSVC4'']),
     (''GV'',   [''GV1'',   ''GV2'',   ''GV3'',   ''GV4'']),
     (''CT'',   [''CT1'',   ''CT2'',   ''CT3'',   ''CT4'']),
     (''NV'',   [''NV1'',   ''NV2'',   ''NV3'',   ''NV4'']),
     (''HP'',   [''HP1'',   ''HP2'',   ''HP3'',   ''HP4'']),
     (''HL'',   [''HL1'',   ''HL2'',   ''HL3'',   ''HL4'']),
     (''TT'',   [''TT1'',   ''TT2'',   ''TT3'',   ''TT4''])]"

text \<open>\<^verbatim>\<open>header = []; for code, items in constructs.items(): header.extend(items)\<close>\<close>

fun header_loop :: "(string \<times> string list) list \<Rightarrow> string list \<Rightarrow> string list" where
  "header_loop [] header = header"
| "header_loop ((code, items) # rest) header = header_loop rest (header @ items)"

definition header :: "string list" where
  "header = header_loop constructs []"

definition mu_CSVC :: real where "mu_CSVC = 3.5"
definition mu_GV :: real where "mu_GV = 4.0"
definition mu_CT :: real where "mu_CT = 3.8"
definition mu_NV :: real where "mu_NV = 3.2"
definition mu_HP :: real where "mu_HP = 3.0"

subsection \<open>Rounding and clamping of one item\<close>

text \<open>
  Python 3's built-in \<^verbatim>\<open>round(x)\<close> with one argument returns the nearest integer and
  resolves a tie (fractional part exactly one half) to the even neighbour.
\<close>

definition py_round :: "real \<Rightarrow> int" where
  "py_round x =
    (let f = \<lfloor>x\<rfloor>; d = x - of_int f in
     if d < 1 / 2 then f
     else if 1 / 2 < d then f + 1
     else if even f then f else f + 1)"

text \<open>Lines 74 to 79: \<^verbatim>\<open>val = base_val + noise; val = round(val); val = max(SCALE_MIN, min(SCALE_MAX, val))\<close>.\<close>

definition item_score :: "real \<Rightarrow> real \<Rightarrow> int" where
  "item_score base_val noise =
    (let val = base_val + noise;
         val = py_round val;
         val = max SCALE_MIN (min SCALE_MAX val)
     in val)"

subsection \<open>One respondent\<close>

text \<open>Lines 46 to 67: the seven latent factors, in the order the draws are made.\<close>

definition latent_factors :: "'s sampler \<Rightarrow> 's \<Rightarrow> (string \<times> real) list \<times> 's" where
  "latent_factors normal s0 =
    (let (f_CSVC, s1) = normal mu_CSVC 0.8 s0;
         (f_GV, s2) = normal mu_GV 0.7 s1;
         (f_CT, s3) = normal mu_CT 0.75 s2;
         (f_NV, s4) = normal mu_NV 0.9 s3;
         (f_HP, s5) = normal mu_HP 0.85 s4;
         (e_HL, s6) = normal 0 0.5 s5;
         f_HL = (0.3 * f_GV + 0.3 * f_CT + 0.2 * f_CSVC + 0.1 * f_NV + 0.1 * f_HP) + e_HL;
         (e_TT, s7) = normal 0 0.4 s6;
         f_TT = (0.8 * f_HL) + e_TT
     in ([(''CSVC'', f_CSVC), (''GV'', f_GV), (''CT'', f_CT), (''NV'', f_NV),
          (''HP'', f_HP), (''HL'', f_HL), (''TT'', f_TT)], s7))"

text \<open>The inner loop \<^verbatim>\<open>for item in items\<close>: one noise draw and one appended score per item.\<close>

fun item_loop :: "'s sampler \<Rightarrow> real \<Rightarrow> string list \<Rightarrow> int list \<Rightarrow> 's \<Rightarrow> int list \<times> 's" where
  "item_loop normal base_val [] row s = (row, s)"
| "item_loop normal base_val (item # items) row s =
    (let (noise, s') = normal 0 0.6 s
     in item_loop normal base_val items (row @ [item_score base_val noise]) s')"

text \<open>
  The outer loop \<^verbatim>\<open>for code, items in constructs.items()\<close>; the lookup
  \<^verbatim>\<open>factors[code]\<close> raises \<^verbatim>\<open>KeyError\<close> on a missing key.
\<close>

fun construct_loop ::
  "'s sampler \<Rightarrow> (string \<times> real) list \<Rightarrow> (string \<times> string list) list \<Rightarrow> int list \<Rightarrow> 's
    \<Rightarrow> error + (int list \<times> 's)" where
  "construct_loop normal factors [] row s = Inr (row, s)"
| "construct_loop normal factors ((code, items) # rest) row s =
    (case map_of factors code of
       None \<Rightarrow> Inl (KeyError code)
     | Some base_val \<Rightarrow>
         (let (row', s') = item_loop normal base_val items row s
          in construct_loop normal factors rest row' s'))"

definition respondent :: "'s sampler \<Rightarrow> 's \<Rightarrow> error + (int list \<times> 's)" where
  "respondent normal s =
    (let (factors, s') = latent_factors normal s
     in construct_loop normal factors constructs [] s')"

subsection \<open>The respondent loop\<close>

text \<open>\<^verbatim>\<open>for i in range(NUM_RESPONDENTS)\<close>, appending each finished row to \<^verbatim>\<open>data\<close>.\<close>

fun respondent_loop ::
  "'s sampler \<Rightarrow> nat \<Rightarrow> int list list \<Rightarrow> 's \<Rightarrow> error + (int list list \<times> 's)" where
  "respondent_loop normal 0 data s = Inr (data, s)"
| "respondent_loop normal (Suc n) data s =
    (case respondent normal s of
       Inl e \<Rightarrow> Inl e
     | Inr (row, s') \<Rightarrow> respondent_loop normal n (data @ [row]) s')"

definition generate :: "'s sampler \<Rightarrow> 's \<Rightarrow> error + (int list list \<times> 's)" where
  "generate normal s = respondent_loop normal NUM_RESPONDENTS [] s"

subsection \<open>Writing the CSV file and the confirmation line\<close>

text \<open>Python's \<^verbatim>\<open>str\<close> on an integer: decimal digits, with a leading minus sign when negative.\<close>

function str_nat :: "nat \<Rightarrow> string" where
  "str_nat n = (if n < 10 then [''0123456789'' ! n]
                else str_nat (n div 10) @ [''0123456789'' ! (n mod 10)])"
  by pat_completeness auto
termination
  by (relation "measure id") auto

declare str_nat.simps [simp del]

definition str_int :: "int \<Rightarrow> string" where
  "str_int i = (if i < 0 then CHR ''-'' # str_nat (nat (- i)) else str_nat (nat i))"

text \<open>
  \<^verbatim>\<open>csv.writer(f)\<close> uses the default dialect: comma delimiter, double-quote quote
  character with doubling, minimal quoting, and the line terminator CR LF. A field is
  quoted when it holds the delimiter, the quote character, CR or LF; a row whose only
  field is empty is written as a pair of quotes.
\<close>

definition CR :: char where "CR = CHR 0x0D"
definition LF :: char where "LF = CHR 0x0A"

definition needs_quote :: "string \<Rightarrow> bool" where
  "needs_quote fld = (\<exists>c \<in> set fld. c = CHR '','' \<or> c = CHR 0x22 \<or> c = CR \<or> c = LF)"

definition csv_field :: "string \<Rightarrow> string" where
  "csv_field fld =
    (if needs_quote fld
     then CHR 0x22 # concat (map (\<lambda>c. if c = CHR 0x22 then [c, c] else [c]) fld) @ [CHR 0x22]
     else fld)"

fun join_fields :: "string list \<Rightarrow> string" where
  "join_fields [] = []"
| "join_fields [fld] = fld"
| "join_fields (fld # rest) = fld @ CHR '','' # join_fields rest"

definition writerow :: "string list \<Rightarrow> string" where
  "writerow fields =
    (if fields = [[]] then [CHR 0x22, CHR 0x22]
     else join_fields (map csv_field fields)) @ [CR, LF]"

definition writerows :: "int list list \<Rightarrow> string" where
  "writerows rows = concat (map (\<lambda>row. writerow (map str_int row)) rows)"

text \<open>
  The whole script. Generation comes first; then the file is opened for writing, which
  fails with \<^verbatim>\<open>OSError\<close> when the fixed path is not writable; the confirmation line is
  printed only after the \<^verbatim>\<open>with\<close> block has finished.
\<close>

record outcome =
  csv_file :: string
  stdout :: "string list"

definition program :: "'s sampler \<Rightarrow> 's \<Rightarrow> bool \<Rightarrow> error + outcome" where
  "program normal s writable =
    (case generate normal s of
       Inl e \<Rightarrow> Inl e
     | Inr (data, s') \<Rightarrow>
         if \<not> writable then Inl OSError
         else Inr \<lparr>csv_file = writerow header @ writerows data,
                   stdout = [''Generated sample_data_large.csv with 150 rows and 28 columns.'']\<rparr>)"

subsection \<open>Vocabulary for stating properties of a run\<close>

text \<open>
  The item-noise draws of one respondent, in the order the loops make them: \<open>n\<close>
  successive calls \<^verbatim>\<open>np.random.normal(0, 0.6)\<close>.
\<close>

fun noise_draws :: "'s sampler \<Rightarrow> nat \<Rightarrow> 's \<Rightarrow> real list \<times> 's" where
  "noise_draws normal 0 s = ([], s)"
| "noise_draws normal (Suc n) s =
    (let (noise, s') = normal 0 0.6 s;
         (rest, s'') = noise_draws normal n s'
     in (noise # rest, s''))"

text \<open>The latent value behind every column: each construct's factor, once per item.\<close>

definition item_bases :: "(string \<times> real) list \<Rightarrow> (string \<times> string list) list \<Rightarrow> real list" where
  "item_bases factors cs =
    concat (map (\<lambda>(code, items). case map_of factors code of
                   None \<Rightarrow> [] | Some base_val \<Rightarrow> replicate (length items) base_val) cs)"

definition item_count :: "(string \<times> string list) list \<Rightarrow> nat" where
  "item_count cs = sum_list (map (\<lambda>(code, items). length items) cs)"

text \<open>
  A mocked random source for concrete runs: it replays a list of standard normal
  variates \<open>z\<close>, answering \<open>loc + scale * z\<close>, and answers exactly \<open>loc\<close> (the mean,
  zero noise) once the list is used up.
\<close>

fun replay :: "real \<Rightarrow> real \<Rightarrow> real list \<Rightarrow> real \<times> real list" where
  "replay loc scale [] = (loc, [])"
| "replay loc scale (z # zs) = (loc + scale * z, zs)"

text \<open>The row every respondent gets when all draws return the mean with zero noise.\<close>

definition mean_row :: "int list" where
  "mean_row = [4, 4, 4, 4, 4, 4, 4, 4, 4, 4, 4, 4, 3, 3, 3, 3, 3, 3, 3, 3, 4, 4, 4, 4, 3, 3, 3, 3]"

text \<open>
  A second mocked source with a different state: a position in a fixed list of variates.
  It makes the same draws as \<open>replay\<close> started on that list.
\<close>

fun replay_at :: "real \<Rightarrow> real \<Rightarrow> nat \<times> real list \<Rightarrow> real \<times> (nat \<times> real list)" where
  "replay_at loc scale (k, zs) =
    (if k < length zs then loc + scale * (zs ! k) else loc, (Suc k, zs))"

text \<open>
  The rounding of the specification, following its words: round to the nearest integer
  with standard rounding, a half going to the upper neighbour; then clamp.
\<close>

definition spec_round :: "real \<Rightarrow> int" where
  "spec_round x = \<lfloor>x + 1 / 2\<rfloor>"

definition spec_item_score :: "real \<Rightarrow> real \<Rightarrow> int" where
  "spec_item_score base_val noise = max SCALE_MIN (min SCALE_MAX (spec_round (base_val + noise)))"

text \<open>
  Reading the emitted text back: a record ends at each CR LF, and the fields of a record
  are separated by commas. (No field of this file is quoted.)
\<close>

fun csv_records :: "string \<Rightarrow> string \<Rightarrow> string list" where
  "csv_records cur [] = (if cur = [] then [] else [cur])"
| "csv_records cur [c] = [cur @ [c]]"
| "csv_records cur (c # d # rest) =
    (if c = CR \<and> d = LF then cur # csv_records [] rest
     else csv_records (cur @ [c]) (d # rest))"

fun csv_fields :: "string \<Rightarrow> string \<Rightarrow> string list" where
  "csv_fields cur [] = [cur]"
| "csv_fields cur (c # rest) =
    (if c = CHR '','' then cur # csv_fields [] rest else csv_fields (cur @ [c]) rest)"

definition read_csv :: "string \<Rightarrow> string list list" where
  "read_csv text = map (csv_fields []) (csv_records [] text)"

text \<open>A row that the writer emits verbatim: it has a field, and none of its fields needs quoting.\<close>

definition plain_row :: "string list \<Rightarrow> bool" where
  "plain_row flds \<longleftrightarrow> flds \<noteq> [] \<and> flds \<noteq> [[]] \<and> (\<forall>fld \<in> set flds. \<not> needs_quote fld)"

section \<open>Properties\<close>

subsection \<open>Rounding and clamping\<close>

lemma item_score_range: "SCALE_MIN \<le> item_score b n \<and> item_score b n \<le> SCALE_MAX"
  by (simp add: item_score_def SCALE_MIN_def SCALE_MAX_def)

lemma py_round_mono: "x \<le> y \<Longrightarrow> py_round x \<le> py_round y"
proof -
  assume xy: "x \<le> y"
  have fl: "\<lfloor>x\<rfloor> \<le> \<lfloor>y\<rfloor>" using xy by (rule floor_mono)
  have lo: "\<And>z. \<lfloor>z\<rfloor> \<le> py_round z" by (simp add: py_round_def Let_def)
  have hi: "\<And>z. py_round z \<le> \<lfloor>z\<rfloor> + 1" by (simp add: py_round_def Let_def)
  show ?thesis
  proof (cases "\<lfloor>x\<rfloor> = \<lfloor>y\<rfloor>")
    case True
    then show ?thesis using xy by (auto simp add: py_round_def Let_def)
  next
    case False
    then have "\<lfloor>x\<rfloor> + 1 \<le> \<lfloor>y\<rfloor>" using fl by simp
    then show ?thesis using lo[of y] hi[of x] by linarith
  qed
qed

subsection \<open>The loops in closed form\<close>

lemma length_noise_draws: "length (fst (noise_draws normal n s)) = n"
  by (induction n arbitrary: s) (simp_all add: split_def Let_def)

lemma noise_draws_add:
  "noise_draws normal (m + n) s =
    (fst (noise_draws normal m s) @ fst (noise_draws normal n (snd (noise_draws normal m s))),
     snd (noise_draws normal n (snd (noise_draws normal m s))))"
  by (induction m arbitrary: s) (simp_all add: split_def Let_def)

lemma item_loop_eq:
  "item_loop normal b items row s =
    (row @ map (item_score b) (fst (noise_draws normal (length items) s)),
     snd (noise_draws normal (length items) s))"
  by (induction items arbitrary: row s) (simp_all add: split_def Let_def)

lemma map2_replicate:
  "length ys = n \<Longrightarrow> map2 f (replicate n b) ys = map (f b) ys"
  by (induction ys arbitrary: n) auto

lemma construct_loop_eq:
  assumes "\<forall>(code, items) \<in> set cs. map_of factors code \<noteq> None"
  shows "construct_loop normal factors cs row s =
    Inr (row @ map2 item_score (item_bases factors cs) (fst (noise_draws normal (item_count cs) s)),
         snd (noise_draws normal (item_count cs) s))"
  using assms
proof (induction cs arbitrary: row s)
  case Nil
  then show ?case by (simp add: item_bases_def item_count_def)
next
  case (Cons c cs)
  obtain code items where c: "c = (code, items)" by (cases c)
  from Cons.prems c obtain b where b: "map_of factors code = Some b" by auto
  from Cons.prems have rest: "\<forall>(code, items) \<in> set cs. map_of factors code \<noteq> None" by simp
  have ib: "item_bases factors ((code, items) # cs) = replicate (length items) b @ item_bases factors cs"
    by (simp add: item_bases_def b)
  have ic: "item_count ((code, items) # cs) = length items + item_count cs"
    by (simp add: item_count_def)
  show ?case
    by (simp add: c b item_loop_eq Cons.IH [OF rest] ib ic noise_draws_add
        length_noise_draws map2_replicate)
qed

lemma latent_keys:
  "\<forall>(code, items) \<in> set constructs. map_of (fst (latent_factors normal s)) code \<noteq> None"
  by (simp add: constructs_def latent_factors_def split_def Let_def)

lemma item_count_constructs: "item_count constructs = 28"
  by (simp add: item_count_def constructs_def)

lemma respondent_eq:
  "respondent normal s =
    Inr (map2 item_score (item_bases (fst (latent_factors normal s)) constructs)
           (fst (noise_draws normal 28 (snd (latent_factors normal s)))),
         snd (noise_draws normal 28 (snd (latent_factors normal s))))"
  by (simp add: respondent_def split_def Let_def construct_loop_eq [OF latent_keys]
      item_count_constructs)

lemma length_item_bases:
  "\<forall>(code, items) \<in> set cs. map_of factors code \<noteq> None \<Longrightarrow>
    length (item_bases factors cs) = item_count cs"
  by (induction cs) (auto simp add: item_bases_def item_count_def)

lemma respondent_row:
  "\<exists>row s'. respondent normal s = Inr (row, s') \<and> length row = 28 \<and>
    (\<forall>v \<in> set row. SCALE_MIN \<le> v \<and> v \<le> SCALE_MAX)"
proof -
  let ?bases = "item_bases (fst (latent_factors normal s)) constructs"
  let ?noises = "fst (noise_draws normal 28 (snd (latent_factors normal s)))"
  have len: "length (map2 item_score ?bases ?noises) = 28"
    by (simp add: length_item_bases [OF latent_keys] item_count_constructs length_noise_draws)
  have rng: "\<forall>v \<in> set (map2 item_score ?bases ?noises). SCALE_MIN \<le> v \<and> v \<le> SCALE_MAX"
    using item_score_range by auto
  show ?thesis using respondent_eq [of normal s] len rng by blast
qed

text \<open>
  The respondent loop never fails, appends exactly \<open>n\<close> rows, and row \<open>i\<close> is the
  result of one respondent pass started in the state the first \<open>i\<close> passes left behind.
\<close>

lemma respondent_loop_rows:
  "\<exists>rows st. respondent_loop normal n data s = Inr (data @ rows, st n) \<and> length rows = n \<and>
     st 0 = s \<and> (\<forall>i<n. respondent normal (st i) = Inr (rows ! i, st (Suc i)))"
proof (induction n arbitrary: data s)
  case 0
  show ?case by (rule exI [of _ "[]"], rule exI [of _ "\<lambda>i. s"]) simp
next
  case (Suc n)
  obtain row s1 where r: "respondent normal s = Inr (row, s1)"
    using respondent_row [of normal s] by blast
  obtain rows st where IH:
      "respondent_loop normal n (data @ [row]) s1 = Inr ((data @ [row]) @ rows, st n)"
      "length rows = n" "st 0 = s1"
      "\<forall>i<n. respondent normal (st i) = Inr (rows ! i, st (Suc i))"
    using Suc.IH [of "data @ [row]" s1] by blast
  let ?st = "\<lambda>i. case i of 0 \<Rightarrow> s | Suc j \<Rightarrow> st j"
  have a: "respondent_loop normal (Suc n) data s = Inr (data @ (row # rows), ?st (Suc n))"
    using r IH(1) by simp
  have b: "\<forall>i<Suc n. respondent normal (?st i) = Inr ((row # rows) ! i, ?st (Suc i))"
  proof (intro allI impI)
    fix i assume "i < Suc n"
    then show "respondent normal (?st i) = Inr ((row # rows) ! i, ?st (Suc i))"
      using r IH(3,4) by (cases i) auto
  qed
  show ?case
    apply (rule exI [of _ "row # rows"])
    apply (rule exI [of _ ?st])
    using a b IH(2) by simp
qed

lemma generate_rows:
  "\<exists>data st. generate normal s = Inr (data, st NUM_RESPONDENTS) \<and>
     length data = NUM_RESPONDENTS \<and> st 0 = s \<and>
     (\<forall>i<NUM_RESPONDENTS. respondent normal (st i) = Inr (data ! i, st (Suc i)))"
  using respondent_loop_rows [of normal NUM_RESPONDENTS "[]" s] by (simp add: generate_def)

subsection \<open>The all-means run\<close>

lemma respondent_loop_fixed:
  "respondent normal s = Inr (row, s) \<Longrightarrow>
    respondent_loop normal n data s = Inr (data @ replicate n row, s)"
  by (induction n arbitrary: data) (simp_all add: replicate_app_Cons_same)

lemma latent_replay_nil:
  "latent_factors replay [] =
    ([(''CSVC'', 7 / 2), (''GV'', 4), (''CT'', 19 / 5), (''NV'', 16 / 5),
      (''HP'', 3), (''HL'', 183 / 50), (''TT'', 366 / 125)], [])"
  by (simp add: latent_factors_def mu_CSVC_def mu_GV_def mu_CT_def mu_NV_def mu_HP_def)

lemma noise_replay_nil: "noise_draws replay n [] = (replicate n 0, [])"
  by (induction n) simp_all

lemma respondent_replay_nil: "respondent replay [] = Inr (mean_row, [])"
  apply (simp add: respondent_eq latent_replay_nil noise_replay_nil)
  apply (simp add: item_bases_def constructs_def mean_row_def item_score_def py_round_def
      SCALE_MIN_def SCALE_MAX_def eval_nat_numeral)
  done

lemma generate_replay_nil: "generate replay [] = Inr (replicate 150 mean_row, [])"
  using respondent_loop_fixed [OF respondent_replay_nil, of NUM_RESPONDENTS "[]"]
  by (simp add: generate_def NUM_RESPONDENTS_def)

subsection \<open>Reading the written text back\<close>

lemma csv_records_line:
  "CR \<notin> set line \<Longrightarrow> csv_records cur (line @ CR # LF # rest) = (cur @ line) # csv_records [] rest"
proof (induction line arbitrary: cur)
  case Nil
  then show ?case by simp
next
  case (Cons c line)
  then have c: "c \<noteq> CR" and l: "CR \<notin> set line" by auto
  obtain d tl' where d: "line @ CR # LF # rest = d # tl'" by (cases line) auto
  have "csv_records cur ((c # line) @ CR # LF # rest) = csv_records (cur @ [c]) (line @ CR # LF # rest)"
    using c d by simp
  then show ?case using Cons.IH [OF l, of "cur @ [c]"] by simp
qed

lemma csv_fields_plain:
  "CHR '','' \<notin> set fld \<Longrightarrow> csv_fields cur (fld @ rest) = csv_fields (cur @ fld) rest"
  by (induction fld arbitrary: cur) auto

lemma csv_fields_join:
  "flds \<noteq> [] \<Longrightarrow> \<forall>fld \<in> set flds. CHR '','' \<notin> set fld \<Longrightarrow>
    csv_fields cur (join_fields flds) = (cur @ hd flds) # tl flds"
proof (induction flds arbitrary: cur rule: join_fields.induct)
  case 1
  then show ?case by simp
next
  case (2 fld)
  then show ?case using csv_fields_plain [of fld cur "[]"] by simp
next
  case (3 fld g rest)
  then show ?case using csv_fields_plain [of fld cur "CHR '','' # join_fields (g # rest)"] by simp
qed

lemma set_join_fields:
  "set (join_fields flds) \<subseteq> insert (CHR '','') (\<Union> (set ` set flds))"
  by (induction flds rule: join_fields.induct) auto

lemma writerow_plain:
  assumes "flds \<noteq> []" "flds \<noteq> [[]]" "\<forall>fld \<in> set flds. \<not> needs_quote fld"
  shows "writerow flds = join_fields flds @ [CR, LF]"
proof -
  have "map csv_field flds = flds"
    using assms(3) by (simp add: csv_field_def map_idI)
  then show ?thesis using assms(2) by (simp add: writerow_def)
qed

lemma CR_not_comma: "CR \<noteq> CHR '',''"
  by (simp add: CR_def)

lemma plain_row_no_CR:
  assumes "\<forall>fld \<in> set flds. \<not> needs_quote fld"
  shows "CR \<notin> set (join_fields flds)"
proof
  assume "CR \<in> set (join_fields flds)"
  with set_join_fields [of flds] have "CR \<in> insert (CHR '','') (\<Union> (set ` set flds))"
    by blast
  with CR_not_comma obtain fld where "fld \<in> set flds" "CR \<in> set fld" by auto
  with assms show False unfolding needs_quote_def by blast
qed

lemma csv_records_rows:
  "\<forall>r \<in> set rows. plain_row r \<Longrightarrow>
    csv_records [] (concat (map writerow rows)) = map join_fields rows"
proof (induction rows)
  case Nil
  then show ?case by simp
next
  case (Cons r rows)
  then have r: "plain_row r" by simp
  have w: "writerow r = join_fields r @ [CR, LF]"
    using r by (simp add: plain_row_def writerow_plain)
  have n: "CR \<notin> set (join_fields r)"
    using r by (simp add: plain_row_def plain_row_no_CR)
  show ?case using Cons csv_records_line [OF n, of "[]"] by (simp add: w)
qed

lemma read_csv_rows:
  assumes "\<forall>r \<in> set rows. plain_row r"
  shows "read_csv (concat (map writerow rows)) = rows"
proof -
  have "csv_fields [] (join_fields r) = r" if "r \<in> set rows" for r
  proof -
    from that assms have p: "plain_row r" by simp
    then have "r \<noteq> []" and "\<forall>fld \<in> set r. CHR '','' \<notin> set fld"
      by (auto simp add: plain_row_def needs_quote_def)
    then show ?thesis using csv_fields_join [of r "[]"] by simp
  qed
  then show ?thesis
    by (simp add: read_csv_def csv_records_rows [OF assms] map_idI)
qed

section \<open>The claims\<close>

text \<open>
  C1. For every respondent row of the output and for every latent and noise draw, however
  extreme, each of the 28 emitted item scores is an integer in the closed range
  from \<open>SCALE_MIN = 1\<close> to \<open>SCALE_MAX = 5\<close>. The sampler and its state are arbitrary, so
  the draws range over all reals; generation never fails.
\<close>

theorem scores_within_scale:
  "\<exists>data s'. generate normal s = Inr (data, s') \<and> SCALE_MIN = 1 \<and> SCALE_MAX = 5 \<and>
     (\<forall>row \<in> set data. length row = 28 \<and> (\<forall>v \<in> set row. SCALE_MIN \<le> v \<and> v \<le> SCALE_MAX))"
proof -
  obtain data st where g: "generate normal s = Inr (data, st NUM_RESPONDENTS)"
    and len: "length data = NUM_RESPONDENTS"
    and rows: "\<forall>i<NUM_RESPONDENTS. respondent normal (st i) = Inr (data ! i, st (Suc i))"
    using generate_rows [of normal s] by blast
  have "length row = 28 \<and> (\<forall>v \<in> set row. SCALE_MIN \<le> v \<and> v \<le> SCALE_MAX)"
    if "row \<in> set data" for row
  proof -
    from that len obtain i where i: "i < NUM_RESPONDENTS" "data ! i = row"
      by (auto simp add: in_set_conv_nth)
    with rows have "respondent normal (st i) = Inr (row, st (Suc i))" by auto
    with respondent_row [of normal "st i"] show ?thesis by auto
  qed
  with g show ?thesis by (auto simp add: SCALE_MIN_def SCALE_MAX_def)
qed

theorem scores_within_scale_witness:
  "generate replay [] = Inr (replicate 150 mean_row, []) \<and>
   mean_row \<in> set (replicate 150 mean_row) \<and> length mean_row = 28 \<and>
   3 \<in> set mean_row \<and> SCALE_MIN \<le> 3 \<and> 3 \<le> SCALE_MAX"
  using scores_within_scale [of replay "[]"] generate_replay_nil
  by (auto simp add: mean_row_def)

text \<open>
  C3. For every respondent, with the five independent latent draws \<open>f_CSVC\<close>, \<open>f_GV\<close>,
  \<open>f_CT\<close>, \<open>f_NV\<close>, \<open>f_HP\<close> and the satisfaction noise draw \<open>eps\<close> (normal, mean 0,
  sd 0.5), the satisfaction latent value stored under \<open>HL\<close> is
  \<open>0.3 * f_GV + 0.3 * f_CT + 0.2 * f_CSVC + 0.1 * f_NV + 0.1 * f_HP + eps\<close>.
\<close>

theorem satisfaction_latent_value:
  "(let (f_CSVC, s1) = normal mu_CSVC 0.8 s0;
        (f_GV, s2) = normal mu_GV 0.7 s1;
        (f_CT, s3) = normal mu_CT 0.75 s2;
        (f_NV, s4) = normal mu_NV 0.9 s3;
        (f_HP, s5) = normal mu_HP 0.85 s4;
        (eps, s6) = normal 0 0.5 s5
    in map_of (fst (latent_factors normal s0)) ''HL'' =
         Some (0.3 * f_GV + 0.3 * f_CT + 0.2 * f_CSVC + 0.1 * f_NV + 0.1 * f_HP + eps))"
  by (simp add: latent_factors_def split_def Let_def)

text \<open>
  C4. For every respondent, with the satisfaction latent value \<open>f_HL\<close> and the loyalty
  noise draw \<open>eps\<close> (normal, mean 0, sd 0.4, the seventh draw of the respondent), the
  loyalty latent value stored under \<open>TT\<close> is \<open>0.8 * f_HL + eps\<close>.
\<close>

theorem loyalty_latent_value:
  "(let (f_CSVC, s1) = normal mu_CSVC 0.8 s0;
        (f_GV, s2) = normal mu_GV 0.7 s1;
        (f_CT, s3) = normal mu_CT 0.75 s2;
        (f_NV, s4) = normal mu_NV 0.9 s3;
        (f_HP, s5) = normal mu_HP 0.85 s4;
        (e_HL, s6) = normal 0 0.5 s5;
        (eps, s7) = normal 0 0.4 s6;
        factors = fst (latent_factors normal s0)
    in \<exists>f_HL. map_of factors ''HL'' = Some f_HL \<and>
         map_of factors ''TT'' = Some (0.8 * f_HL + eps))"
  by (simp add: latent_factors_def split_def Let_def)

text \<open>
  C9. For any fixed item noise, the emitted item score is monotone non-decreasing in the
  construct's latent value: rounding and then clamping never inverts the order.
\<close>

theorem item_score_mono:
  "a \<le> b \<Longrightarrow> item_score a noise \<le> item_score b noise"
proof -
  assume "a \<le> b"
  then have "py_round (a + noise) \<le> py_round (b + noise)"
    by (intro py_round_mono) simp
  then show ?thesis by (simp add: item_score_def Let_def)
qed

theorem item_score_mono_witness:
  "(2::real) \<le> 3 \<and> item_score 2 (1 / 2) \<le> item_score 3 (1 / 2) \<and>
   item_score 2 (1 / 2) = 2 \<and> item_score 3 (1 / 2) = 4"
  using item_score_mono [of 2 3 "1 / 2"]
  by (simp add: item_score_def py_round_def SCALE_MIN_def SCALE_MAX_def)

text \<open>
  C10. Over exact arithmetic the satisfaction weights 0.3, 0.3, 0.2, 0.1, 0.1 sum to 1:
  when the five independent latent draws all return the same value \<open>v\<close> and the
  satisfaction noise draw returns zero, the satisfaction latent value is \<open>v\<close>.
\<close>

theorem satisfaction_weights_average:
  "(let (f_CSVC, s1) = normal mu_CSVC 0.8 s0;
        (f_GV, s2) = normal mu_GV 0.7 s1;
        (f_CT, s3) = normal mu_CT 0.75 s2;
        (f_NV, s4) = normal mu_NV 0.9 s3;
        (f_HP, s5) = normal mu_HP 0.85 s4;
        (eps, s6) = normal 0 0.5 s5
    in f_CSVC = v \<and> f_GV = v \<and> f_CT = v \<and> f_NV = v \<and> f_HP = v \<and> eps = 0
       \<longrightarrow> map_of (fst (latent_factors normal s0)) ''HL'' = Some v)"
  by (simp add: latent_factors_def split_def Let_def)

theorem satisfaction_weights_average_witness:
  "(let (f_CSVC, s1) = replay mu_CSVC 0.8 [5 / 8, 0, 4 / 15, 8 / 9, 20 / 17, 0];
        (f_GV, s2) = replay mu_GV 0.7 s1;
        (f_CT, s3) = replay mu_CT 0.75 s2;
        (f_NV, s4) = replay mu_NV 0.9 s3;
        (f_HP, s5) = replay mu_HP 0.85 s4;
        (eps, s6) = replay 0 0.5 s5
    in f_CSVC = 4 \<and> f_GV = 4 \<and> f_CT = 4 \<and> f_NV = 4 \<and> f_HP = 4 \<and> eps = 0) \<and>
   map_of (fst (latent_factors replay [5 / 8, 0, 4 / 15, 8 / 9, 20 / 17, 0])) ''HL'' = Some 4"
  using satisfaction_weights_average [of replay "[5 / 8, 0, 4 / 15, 8 / 9, 20 / 17, 0]" 4]
  by (simp add: mu_CSVC_def mu_GV_def mu_CT_def mu_NV_def mu_HP_def)

end
